theory Spec2Isabelle
  imports Main "HOL-Library.Sublist"
begin

section \<open>Strings\<close>

text \<open>
  JavaScript strings are modelled as \<^typ>\<open>string\<close>, one \<^typ>\<open>char\<close> per code unit
  in the range 0..255 (HTTP header values reach the program decoded that way).
  \<open>isWhiteSpace\<close> is the white space and line terminator set that \<open>parseInt\<close> and
  \<open>String.prototype.trim\<close> skip, restricted to that range:
  TAB, LF, VT, FF, CR, SP and NBSP.
\<close>

definition isWhiteSpace :: "char \<Rightarrow> bool" where
  "isWhiteSpace c = (of_char c \<in> {9, 10, 11, 12, 13, 32, 160 :: nat})"

definition isDigit :: "char \<Rightarrow> bool" where
  "isDigit c = (48 \<le> (of_char c :: nat) \<and> (of_char c :: nat) \<le> 57)"

definition trim :: "string \<Rightarrow> string" where
  "trim s = rev (dropWhile isWhiteSpace (rev (dropWhile isWhiteSpace s)))"

text \<open>The value of a run of decimal digits, most significant first.\<close>

fun digitsValue :: "int \<Rightarrow> string \<Rightarrow> int" where
  "digitsValue acc [] = acc"
| "digitsValue acc (c # cs) = digitsValue (acc * 10 + (int (of_char c) - 48)) cs"

text \<open>
  \<open>parseInt(s, 10)\<close>: leading white space is skipped, one sign is accepted, then the
  longest run of decimal digits is read and everything after it is ignored. With no digit
  the result is NaN, here \<open>None\<close>.
\<close>

definition parseInt :: "string \<Rightarrow> int option" where
  "parseInt s =
     (let t = dropWhile isWhiteSpace s;
          neg = (t \<noteq> [] \<and> hd t = CHR ''-'');
          r = (if t \<noteq> [] \<and> (hd t = CHR ''-'' \<or> hd t = CHR ''+'') then tl t else t);
          ds = takeWhile isDigit r
      in if ds = [] then None
         else Some (if neg then - digitsValue 0 ds else digitsValue 0 ds))"

section \<open>webhook.ts: signature verification\<close>

text \<open>
  \<open>Buffer.from(s, "utf8")\<close>: the bytes of \<open>s\<close> in UTF-8, as numbers. A code unit below
  128 is one byte, one from 128 to 255 is two.
  \<open>crypto.timingSafeEqual(a, b)\<close> throws a RangeError when the two buffers differ in
  byte length and compares them otherwise.
\<close>

datatype jsError =
    RangeError
  | TypeError
  | ApiReturned nat
  | Thrown string

definition utf8Bytes :: "char \<Rightarrow> nat list" where
  "utf8Bytes c =
     (let n = (of_char c :: nat)
      in if n < 128 then [n] else [192 + n div 64, 128 + n mod 64])"

definition bufferFrom :: "string \<Rightarrow> nat list" where
  "bufferFrom s = concat (map utf8Bytes s)"

definition timingSafeEqual :: "nat list \<Rightarrow> nat list \<Rightarrow> jsError + bool" where
  "timingSafeEqual a b = (if length a \<noteq> length b then Inl RangeError else Inr (a = b))"

text \<open>
  \<open>verifySlackSignature(signingSecret, requestSignature, timestamp, body)\<close>.
  Two things the function reads from outside are parameters: \<open>hmac\<close>, the hex digest of
  \<open>crypto.createHmac("sha256", key).update(msg)\<close>, and \<open>time\<close>, the value of
  \<open>Math.floor(Date.now() / 1000)\<close>. The comparison \<open>Math.abs(time - timestampNum) > 300\<close>
  is false when \<open>timestampNum\<close> is NaN.
\<close>

definition verifySlackSignature ::
  "(string \<Rightarrow> string \<Rightarrow> string) \<Rightarrow> int \<Rightarrow> string \<Rightarrow> string \<Rightarrow> string \<Rightarrow> string \<Rightarrow> jsError + bool"
where
  "verifySlackSignature hmac time signingSecret requestSignature timestamp body =
     (let timestampNum = parseInt timestamp in
      if (case timestampNum of None \<Rightarrow> False | Some n \<Rightarrow> \<bar>time - n\<bar> > 300)
      then Inr False
      else
        let sigBasestring = ''v0:'' @ timestamp @ '':'' @ body;
            mySignature = ''v0='' @ hmac signingSecret sigBasestring
        in timingSafeEqual (bufferFrom mySignature) (bufferFrom requestSignature))"

section \<open>webhook.ts: event classification\<close>

text \<open>
  The payload is cast from the request body without a check, so at run time the field
  \<open>text\<close> (\<open>event_text\<close> here) of an event may be absent (\<open>undefined\<close>); it is an option here. The other
  fields are only compared or concatenated.
\<close>

record SlackEvent =
  event_type :: string
  event_ts :: string
  user :: string
  event_text :: "string option"
  channel :: string
  channel_type :: "string option"

record SlackIntegrationConfig =
  signingSecret :: string
  botToken :: string
  botUserId :: string
  continueApiUrl :: string

definition isDirectMessage :: "SlackEvent \<Rightarrow> bool" where
  "isDirectMessage event = (channel_type event = Some ''im'')"

definition mention :: "string \<Rightarrow> string" where
  "mention botId = ''<@'' @ botId @ ''>''"

text \<open>\<open>text.includes(s)\<close>: \<open>s\<close> occurs somewhere in \<open>text\<close>.\<close>

fun includesStr :: "string \<Rightarrow> string \<Rightarrow> bool" where
  "includesStr [] s = (s = [])"
| "includesStr (c # cs) s = (prefix s (c # cs) \<or> includesStr cs s)"

definition isBotMentioned :: "string \<Rightarrow> string \<Rightarrow> bool" where
  "isBotMentioned t botId = includesStr t (mention botId)"

text \<open>
  \<open>text.replace(new RegExp(p, "g"), "")\<close>. For a pattern \<open>p\<close> without regular
  expression operators every occurrence of \<open>p\<close> is removed, scanning from the left
  and continuing after each match (\<open>removeAllMatches\<close>). A bot id is compiled into the
  pattern as it is; for a pattern with an operator, what the \<open>RegExp\<close> constructor
  and the replacement do is the parameter \<open>rx\<close>: \<open>Inl e\<close> when the constructor
  throws \<open>e\<close>, \<open>Inr r\<close> when the replacement gives \<open>r\<close>.
\<close>

definition isRegexOperator :: "char \<Rightarrow> bool" where
  \<comment> \<open>the characters \<open>$ ( ) * + . ? [ \ ] ^ { | }\<close>, by their codes\<close>
  "isRegexOperator c =
     (of_char c \<in> {36, 40, 41, 42, 43, 46, 63, 91, 92, 93, 94, 123, 124, 125 :: nat})"

definition isLiteralPattern :: "string \<Rightarrow> bool" where
  "isLiteralPattern p = list_all (\<lambda>c. \<not> isRegexOperator c) p"

fun removeAllMatches :: "string \<Rightarrow> string \<Rightarrow> string" where
  "removeAllMatches p [] = []"
| "removeAllMatches p (c # cs) =
     (if p \<noteq> [] \<and> prefix p (c # cs) then removeAllMatches p (drop (length p - 1) cs)
      else c # removeAllMatches p cs)"

definition replaceAllMatches ::
  "(string \<Rightarrow> string \<Rightarrow> jsError + string) \<Rightarrow> string \<Rightarrow> string \<Rightarrow> jsError + string"
where
  "replaceAllMatches rx p t =
     (if isLiteralPattern p then Inr (removeAllMatches p t) else rx p t)"

definition extractMessageText ::
  "(string \<Rightarrow> string \<Rightarrow> jsError + string) \<Rightarrow> string \<Rightarrow> string \<Rightarrow> jsError + string"
where
  "extractMessageText rx t botId =
     (case replaceAllMatches rx (mention botId) t of
        Inl e \<Rightarrow> Inl e
      | Inr r \<Rightarrow> Inr (trim r))"

section \<open>client.ts: the Slack API client\<close>

text \<open>
  Every request the program sends is recorded, in order, as a \<open>call\<close>. The three client
  methods send one request each; \<open>thread_ts\<close> is never set by the callers and is left out.
  Logging is not modelled.
\<close>

datatype call =
    ChatPostMessage string string
  | ChatUpdate string string string
  | ChatPostEphemeral string string string
  | SubmitMessage string
  | GetState
  | SetInterval
  | ClearInterval

record SlackMessageResponse =
  ok :: bool
  ts :: "string option"
  error :: "string option"

definition postMessage_req :: "string \<Rightarrow> string \<Rightarrow> call" where
  "postMessage_req ch t = ChatPostMessage ch t"

definition updateMessage_req :: "string \<Rightarrow> string \<Rightarrow> string \<Rightarrow> call" where
  "updateMessage_req ch tstamp t = ChatUpdate ch tstamp t"

definition postEphemeral_req :: "string \<Rightarrow> string \<Rightarrow> string \<Rightarrow> call" where
  "postEphemeral_req ch usr t = ChatPostEphemeral ch usr t"

text \<open>
  What a client method returns, given what the network did: \<open>Inl e\<close> when \<open>fetch\<close> or
  \<open>response.json()\<close> threw \<open>e\<close>, \<open>Inr data\<close> when the body parsed to \<open>data\<close>. The body
  of each method is one \<open>try\<close>/\<open>catch\<close> that turns a thrown error into a response with
  \<open>ok = false\<close>; \<open>formatError\<close>, which is not part of the sources at hand, is the
  parameter \<open>fmt\<close>.
\<close>

definition apiReply ::
  "(jsError \<Rightarrow> string) \<Rightarrow> jsError + SlackMessageResponse \<Rightarrow> SlackMessageResponse"
where
  "apiReply fmt net =
     (case net of
        Inl e \<Rightarrow> \<lparr>ok = False, ts = None, error = Some (fmt e)\<rparr>
      | Inr data \<Rightarrow> data)"

section \<open>slackIntegration.ts: the state of the integration\<close>

text \<open>
  The texts the integration sends. Each of them but the first starts with an emoji in
  the source, written here by its short name.
\<close>

definition pleaseProvideText :: string where
  "pleaseProvideText = ''Please provide a message for me to process.''"

definition processingText :: string where
  "processingText = '':robot_face: Processing your request...''"

definition queuedText :: string where
  "queuedText =
     '':white_check_mark: Your request has been queued. I'll send you the results when complete.''"

definition errorProcessingText :: "string \<Rightarrow> string" where
  "errorProcessingText e = '':x: Error processing your request: '' @ e"

definition timedOutText :: string where
  "timedOutText =
     '':stopwatch: Request timed out. The agent may still be processing in the background.''"

definition completePrefix :: string where
  "completePrefix = '':white_check_mark: Complete!'' @ [CHR 0x0A, CHR 0x0A]"

definition contentText :: "string \<Rightarrow> string" where
  "contentText c = completePrefix @ c"

definition processingCompleteText :: string where
  "processingCompleteText = '':white_check_mark: Processing complete.''"

definition errorResultsText :: "string \<Rightarrow> string" where
  "errorResultsText e = '':x: Error getting results: '' @ e"

text \<open>
  One \<open>pollSession\<close> holds the variables that a call of \<open>pollAndSendResults\<close> closes
  over: its three arguments, the counters \<open>polls\<close> and \<open>lastMessageCount\<close>, and
  whether its interval timer is still set (\<open>running\<close>).
\<close>

record pollSession =
  ps_channel :: string
  ps_user :: string
  messageTs :: string
  polls :: nat
  lastMessageCount :: nat
  running :: bool

record integration =
  processingMessages :: "string set"
  calls :: "call list"
  timers :: "pollSession list"

definition emit :: "call \<Rightarrow> integration \<Rightarrow> integration" where
  "emit c st = st\<lparr>calls := calls st @ [c]\<rparr>"

section \<open>slackIntegration.ts: handleEvent\<close>

text \<open>
  \<open>handleEvent\<close> is an \<open>async\<close> function: it runs without interruption up to an
  \<open>await\<close>, and other deliveries and timers run while it waits. A \<open>stage\<close> says where
  an invocation stands: it has returned, it has thrown, or it waits for the reply to a
  request it has sent. The stages keep the local variables that are read later:
  \<open>messageText\<close> while the acknowledgment is awaited, \<open>ackResponse.ts\<close> afterwards.
\<close>

datatype slackAwait =
    EmptyNotice
  | Ack string
  | QueuedUpdate string
  | ErrorUpdate

datatype stage =
    Returned
  | Threw jsError
  | AwaitSlack slackAwait
  | AwaitSubmit string

record httpResponse =
  resp_ok :: bool
  status :: nat

definition messageId :: "SlackEvent \<Rightarrow> string" where
  "messageId event = channel event @ '':'' @ event_ts event"

text \<open>The \<open>finally\<close> block: \<open>this.processingMessages.delete(messageId)\<close>.\<close>

definition finallyDelete :: "string \<Rightarrow> stage \<times> integration \<Rightarrow> stage \<times> integration" where
  "finallyDelete k r =
     (fst r, (snd r)\<lparr>processingMessages := processingMessages (snd r) - {k}\<rparr>)"

text \<open>
  \<open>pollAndSendResults\<close> is called without \<open>await\<close>; what it does before it returns is
  to set its two counters and the interval timer.
\<close>

definition newSession :: "string \<Rightarrow> string \<Rightarrow> string \<Rightarrow> pollSession" where
  "newSession ch usr tstamp =
     \<lparr>ps_channel = ch, ps_user = usr, messageTs = tstamp,
      polls = 0, lastMessageCount = 0, running = True\<rparr>"

definition pollAndSendResults :: "string \<Rightarrow> string \<Rightarrow> string \<Rightarrow> integration \<Rightarrow> integration" where
  "pollAndSendResults ch usr tstamp st =
     st\<lparr>calls := calls st @ [SetInterval],
        timers := timers st @ [newSession ch usr tstamp]\<rparr>"

text \<open>
  From the entry of \<open>handleEvent\<close> to its first \<open>await\<close>. With \<open>text\<close> undefined,
  \<open>text.includes\<close> (for a channel message) or \<open>text.replace\<close> (for a direct message)
  throws a TypeError inside the \<open>try\<close>; an error thrown by the \<open>RegExp\<close>
  constructor leaves the \<open>try\<close> the same way.
\<close>

definition handleEvent_start ::
  "(string \<Rightarrow> string \<Rightarrow> jsError + string) \<Rightarrow> SlackIntegrationConfig \<Rightarrow> SlackEvent
     \<Rightarrow> integration \<Rightarrow> stage \<times> integration"
where
  "handleEvent_start rx cfg event st =
     (if event_type event \<noteq> ''message'' then (Returned, st)
      else if user event = botUserId cfg then (Returned, st)
      else if messageId event \<in> processingMessages st then (Returned, st)
      else
        let st1 = st\<lparr>processingMessages := insert (messageId event) (processingMessages st)\<rparr>;
            isDM = isDirectMessage event
        in case event_text event of
             None \<Rightarrow> finallyDelete (messageId event) (Threw TypeError, st1)
           | Some t \<Rightarrow>
               if \<not> isDM \<and> \<not> isBotMentioned t (botUserId cfg)
               then finallyDelete (messageId event) (Returned, st1)
               else
                 case extractMessageText rx t (botUserId cfg) of
                   Inl e \<Rightarrow> finallyDelete (messageId event) (Threw e, st1)
                 | Inr messageText \<Rightarrow>
                     if messageText = []
                     then (AwaitSlack EmptyNotice,
                           emit (postMessage_req (channel event) pleaseProvideText) st1)
                     else (AwaitSlack (Ack messageText),
                           emit (postMessage_req (channel event) processingText) st1))"

text \<open>
  An invocation that waits for a reply of the Slack client goes on when the network has
  answered (\<open>net\<close>). After the acknowledgment, \<open>!ackResponse.ok || !ackResponse.ts\<close>
  ends the invocation; an empty \<open>ts\<close> is falsy like a missing one.
\<close>

definition resumeSlack ::
  "(jsError \<Rightarrow> string) \<Rightarrow> SlackEvent \<Rightarrow> slackAwait \<Rightarrow> jsError + SlackMessageResponse
     \<Rightarrow> integration \<Rightarrow> stage \<times> integration"
where
  "resumeSlack fmt event w net st =
     (case w of
        EmptyNotice \<Rightarrow> finallyDelete (messageId event) (Returned, st)
      | Ack messageText \<Rightarrow>
          (let ackResponse = apiReply fmt net in
           case ts ackResponse of
             None \<Rightarrow> finallyDelete (messageId event) (Returned, st)
           | Some t \<Rightarrow>
               if \<not> ok ackResponse \<or> t = []
               then finallyDelete (messageId event) (Returned, st)
               else (AwaitSubmit t, emit (SubmitMessage messageText) st))
      | QueuedUpdate t \<Rightarrow>
          finallyDelete (messageId event)
            (Returned, pollAndSendResults (channel event) (user event) t st)
      | ErrorUpdate \<Rightarrow> finallyDelete (messageId event) (Returned, st))"

text \<open>
  The inner \<open>try\<close>: the reply to \<open>POST /message\<close>. \<open>Inl e\<close> is \<open>fetch\<close> throwing
  \<open>e\<close>; a response that is not \<open>ok\<close> throws \<open>Error("Continue API returned " + status)\<close>,
  the value \<open>ApiReturned status\<close>. Both reach the \<open>catch\<close>, which updates the
  acknowledgment with the error.
\<close>

definition submitThrows :: "jsError + httpResponse \<Rightarrow> jsError option" where
  "submitThrows net =
     (case net of
        Inl e \<Rightarrow> Some e
      | Inr response \<Rightarrow>
          if \<not> resp_ok response then Some (ApiReturned (status response)) else None)"

definition resumeSubmit ::
  "(jsError \<Rightarrow> string) \<Rightarrow> SlackEvent \<Rightarrow> string \<Rightarrow> jsError + httpResponse
     \<Rightarrow> integration \<Rightarrow> stage \<times> integration"
where
  "resumeSubmit fmt event t net st =
     (case submitThrows net of
           None \<Rightarrow>
             (AwaitSlack (QueuedUpdate t),
              emit (updateMessage_req (channel event) t queuedText) st)
         | Some e \<Rightarrow>
             (AwaitSlack ErrorUpdate,
              emit (updateMessage_req (channel event) t (errorProcessingText (fmt e))) st))"

text \<open>
  One invocation run from entry to exit, with nothing else in between. \<open>netEnv\<close> holds
  what the network does at each request of the invocation: the notice for an empty
  message, the acknowledgment, the submission, and the update that follows it. An
  invocation awaits at most three replies.
\<close>

record netEnv =
  net_notice :: "jsError + SlackMessageResponse"
  net_ack :: "jsError + SlackMessageResponse"
  net_submit :: "jsError + httpResponse"
  net_update :: "jsError + SlackMessageResponse"

definition resume ::
  "(jsError \<Rightarrow> string) \<Rightarrow> SlackEvent \<Rightarrow> netEnv \<Rightarrow> stage \<times> integration \<Rightarrow> stage \<times> integration"
where
  "resume fmt event env r =
     (case fst r of
        AwaitSlack EmptyNotice \<Rightarrow> resumeSlack fmt event EmptyNotice (net_notice env) (snd r)
      | AwaitSlack (Ack m) \<Rightarrow> resumeSlack fmt event (Ack m) (net_ack env) (snd r)
      | AwaitSlack w \<Rightarrow> resumeSlack fmt event w (net_update env) (snd r)
      | AwaitSubmit t \<Rightarrow> resumeSubmit fmt event t (net_submit env) (snd r)
      | _ \<Rightarrow> r)"

definition handleEvent ::
  "(string \<Rightarrow> string \<Rightarrow> jsError + string) \<Rightarrow> (jsError \<Rightarrow> string) \<Rightarrow> SlackIntegrationConfig
     \<Rightarrow> SlackEvent \<Rightarrow> netEnv \<Rightarrow> integration \<Rightarrow> stage \<times> integration"
where
  "handleEvent rx fmt cfg event env st =
     resume fmt event env (resume fmt event env (resume fmt event env
       (handleEvent_start rx cfg event st)))"

section \<open>slackIntegration.ts: the timer callback of pollAndSendResults\<close>

record chatMessage =
  role :: string
  content :: "string option"

record historyItem =
  message :: "chatMessage option"

record apiState =
  history :: "historyItem list option"
  isProcessing :: bool
  queueLength :: int

definition maxPolls :: nat where
  "maxPolls = 300"

text \<open>
  The reply to \<open>GET /state\<close>: \<open>Inl e\<close> when \<open>fetch\<close> threw, else the response and what
  \<open>response.json()\<close> gave. \<open>queryState\<close> is the part of the \<open>try\<close> block up to
  \<open>const state = await response.json()\<close>.
\<close>

definition queryState :: "jsError + httpResponse \<times> (jsError + apiState) \<Rightarrow> jsError + apiState" where
  "queryState net =
     (case net of
        Inl e \<Rightarrow> Inl e
      | Inr (response, body) \<Rightarrow>
          if \<not> resp_ok response then Inl (ApiReturned (status response)) else body)"

text \<open>
  \<open>lastMessage?.message?.role === "assistant"\<close> and then \<open>content && content.trim()\<close>:
  the content to relay, if the entry has one.
\<close>

definition assistantContent :: "historyItem \<Rightarrow> string option" where
  "assistantContent lastMessage =
     (case message lastMessage of
        None \<Rightarrow> None
      | Some m \<Rightarrow>
          if role m = ''assistant'' then
            (case content m of
               None \<Rightarrow> None
             | Some c \<Rightarrow> if c \<noteq> [] \<and> trim c \<noteq> [] then Some c else None)
          else None)"

text \<open>
  The block under "Check if there are new messages": the session after it and the
  requests it sent.
\<close>

definition relayNewMessages :: "apiState \<Rightarrow> pollSession \<Rightarrow> pollSession \<times> call list" where
  "relayNewMessages state s =
     (case history state of
        None \<Rightarrow> (s, [])
      | Some h \<Rightarrow>
          if length h > lastMessageCount s then
            (s\<lparr>lastMessageCount := length h\<rparr>,
             case assistantContent (last h) of
               None \<Rightarrow> []
             | Some c \<Rightarrow> [updateMessage_req (ps_channel s) (messageTs s) (contentText c)])
          else (s, []))"

text \<open>
  One run of the timer callback, taken as a whole: it is assumed to finish before the
  timer fires again. A timer that has been cleared does not fire. The replies of the
  Slack client are not read by the callback.
\<close>

definition pollTick ::
  "(jsError \<Rightarrow> string) \<Rightarrow> jsError + httpResponse \<times> (jsError + apiState) \<Rightarrow> pollSession
     \<Rightarrow> pollSession \<times> call list"
where
  "pollTick fmt net s =
     (if \<not> running s then (s, [])
      else
        let s1 = s\<lparr>polls := polls s + 1\<rparr> in
        if polls s1 > maxPolls
        then (s1\<lparr>running := False\<rparr>,
              [ClearInterval, updateMessage_req (ps_channel s) (messageTs s) timedOutText])
        else
          case queryState net of
            Inl e \<Rightarrow>
              (s1\<lparr>running := False\<rparr>,
               [GetState, ClearInterval,
                updateMessage_req (ps_channel s) (messageTs s) (errorResultsText (fmt e))])
          | Inr state \<Rightarrow>
              let r = relayNewMessages state s1 in
              if \<not> isProcessing state \<and> queueLength state = 0
              then ((fst r)\<lparr>running := False\<rparr>,
                    [GetState] @ snd r @ [ClearInterval] @
                    (if lastMessageCount (fst r) = 0
                     then [updateMessage_req (ps_channel s) (messageTs s) processingCompleteText]
                     else []))
              else (fst r, [GetState] @ snd r))"

text \<open>A session from its creation through a sequence of timer callbacks.\<close>

fun pollTicks ::
  "(jsError \<Rightarrow> string) \<Rightarrow> (jsError + httpResponse \<times> (jsError + apiState)) list \<Rightarrow> pollSession
     \<Rightarrow> pollSession \<times> call list"
where
  "pollTicks fmt [] s = (s, [])"
| "pollTicks fmt (net # nets) s =
     (let r = pollTick fmt net s; r' = pollTicks fmt nets (fst r)
      in (fst r', snd r @ snd r'))"

section \<open>Deliveries and timers interleaved\<close>

text \<open>
  The event loop runs one piece of code at a time: a delivery enters \<open>handleEvent\<close>
  and runs to its first \<open>await\<close>, a waiting invocation gets its reply and runs to its
  next \<open>await\<close> or to its exit, or a timer fires. \<open>pending\<close> lists the invocations
  that wait, each with its event; an \<open>action\<close> names the piece that runs next, a waiting
  invocation or a timer by its position. An action that cannot happen (no such
  invocation, or one that waits for another kind of reply) changes nothing.
\<close>

datatype action =
    Deliver SlackEvent
  | SlackReplies nat "jsError + SlackMessageResponse"
  | SubmitReplies nat "jsError + httpResponse"
  | TimerFires nat "jsError + httpResponse \<times> (jsError + apiState)"

type_synonym pending = "(SlackEvent \<times> stage) list"

fun waiting :: "stage \<Rightarrow> bool" where
  "waiting (AwaitSlack w) = True"
| "waiting (AwaitSubmit t) = True"
| "waiting Returned = False"
| "waiting (Threw e) = False"

definition settle ::
  "nat \<Rightarrow> SlackEvent \<Rightarrow> stage \<times> integration \<Rightarrow> pending \<Rightarrow> integration \<times> pending"
where
  "settle i event r p =
     (snd r, if waiting (fst r) then p[i := (event, fst r)] else take i p @ drop (Suc i) p)"

fun act ::
  "(string \<Rightarrow> string \<Rightarrow> jsError + string) \<Rightarrow> (jsError \<Rightarrow> string) \<Rightarrow> SlackIntegrationConfig
     \<Rightarrow> action \<Rightarrow> integration \<times> pending \<Rightarrow> integration \<times> pending"
where
  "act rx fmt cfg (Deliver event) (st, p) =
     (let r = handleEvent_start rx cfg event st
      in (snd r, if waiting (fst r) then p @ [(event, fst r)] else p))"
| "act rx fmt cfg (SlackReplies i net) (st, p) =
     (if i < length p then
        (case p ! i of
           (event, AwaitSlack w) \<Rightarrow> settle i event (resumeSlack fmt event w net st) p
         | _ \<Rightarrow> (st, p))
      else (st, p))"
| "act rx fmt cfg (SubmitReplies i net) (st, p) =
     (if i < length p then
        (case p ! i of
           (event, AwaitSubmit t) \<Rightarrow> settle i event (resumeSubmit fmt event t net st) p
         | _ \<Rightarrow> (st, p))
      else (st, p))"
| "act rx fmt cfg (TimerFires i net) (st, p) =
     (if i < length (timers st) then
        (let r = pollTick fmt net (timers st ! i)
         in (st\<lparr>calls := calls st @ snd r, timers := (timers st)[i := fst r]\<rparr>, p))
      else (st, p))"

definition run ::
  "(string \<Rightarrow> string \<Rightarrow> jsError + string) \<Rightarrow> (jsError \<Rightarrow> string) \<Rightarrow> SlackIntegrationConfig
     \<Rightarrow> action list \<Rightarrow> integration \<times> pending \<Rightarrow> integration \<times> pending"
where
  "run rx fmt cfg acts sys = foldl (\<lambda>s a. act rx fmt cfg a s) sys acts"

definition initial :: "integration \<times> pending" where
  "initial = (\<lparr>processingMessages = {}, calls = [], timers = []\<rparr>, [])"

section \<open>Definitions used to state the properties\<close>

text \<open>
  \<open>toyDigest\<close> stands in for HMAC-SHA256 where a property is evaluated on a concrete
  request: a keyed checksum of two hexadecimal digits. Every theorem below holds for any
  digest function.
\<close>

definition hexDigit :: "nat \<Rightarrow> char" where
  "hexDigit n = ''0123456789abcdef'' ! (n mod 16)"

definition toyDigest :: "string \<Rightarrow> string \<Rightarrow> string" where
  "toyDigest key msg =
     (let v = sum_list (map of_char (key @ msg)) mod (256 :: nat)
      in [hexDigit (v div 16), hexDigit v])"

definition expectedSignature :: "(string \<Rightarrow> string \<Rightarrow> string) \<Rightarrow> string \<Rightarrow> string \<Rightarrow> string \<Rightarrow> string" where
  "expectedSignature hmac secret timestamp body =
     ''v0='' @ hmac secret (''v0:'' @ timestamp @ '':'' @ body)"

text \<open>
  \<open>verify\<close> as the specification words it: true exactly when the timestamp parses to a
  time within 300 seconds of the current time and the signature is the expected one.
\<close>

definition spec_verify ::
  "(string \<Rightarrow> string \<Rightarrow> string) \<Rightarrow> int \<Rightarrow> string \<Rightarrow> string \<Rightarrow> string \<Rightarrow> string \<Rightarrow> bool"
where
  "spec_verify hmac time secret sig timestamp body =
     ((case parseInt timestamp of None \<Rightarrow> False | Some n \<Rightarrow> \<bar>time - n\<bar> \<le> 300)
      \<and> sig = expectedSignature hmac secret timestamp body)"

text \<open>
  \<open>plainFormat\<close> stands in for \<open>formatError\<close> where a property is evaluated on a
  concrete run.
\<close>

definition plainFormat :: "jsError \<Rightarrow> string" where
  "plainFormat e =
     (case e of
        Thrown m \<Rightarrow> m
      | ApiReturned n \<Rightarrow> ''Continue API returned an error status''
      | RangeError \<Rightarrow> ''RangeError''
      | TypeError \<Rightarrow> ''TypeError'')"

text \<open>A reply to \<open>GET /state\<close> with status 200 and the given state as its body.\<close>

definition okState :: "apiState \<Rightarrow> jsError + httpResponse \<times> (jsError + apiState)" where
  "okState state = Inr (\<lparr>resp_ok = True, status = 200\<rparr>, Inr state)"

text \<open>
  The updates a session sends are told apart by their texts: the relay of content
  starts with \<open>completePrefix\<close>, the timeout notice is \<open>timedOutText\<close>.
\<close>

definition isContentRelay :: "call \<Rightarrow> bool" where
  "isContentRelay c =
     (case c of ChatUpdate ch tstamp t \<Rightarrow> prefix completePrefix t | _ \<Rightarrow> False)"

definition isTimeoutNotice :: "call \<Rightarrow> bool" where
  "isTimeoutNotice c = (case c of ChatUpdate ch tstamp t \<Rightarrow> t = timedOutText | _ \<Rightarrow> False)"

definition isUpdate :: "call \<Rightarrow> bool" where
  "isUpdate c = (case c of ChatUpdate ch tstamp t \<Rightarrow> True | _ \<Rightarrow> False)"

text \<open>The backend answers the query and reports \<open>isProcessing = true\<close>.\<close>

definition reportsProcessing :: "jsError + httpResponse \<times> (jsError + apiState) \<Rightarrow> bool" where
  "reportsProcessing net =
     (case queryState net of Inl e \<Rightarrow> False | Inr state \<Rightarrow> isProcessing state)"

text \<open>The history length a callback observes, if the query gives it one.\<close>

definition observedLength :: "jsError + httpResponse \<times> (jsError + apiState) \<Rightarrow> nat option" where
  "observedLength net =
     (case queryState net of
        Inl e \<Rightarrow> None
      | Inr state \<Rightarrow> map_option length (history state))"

text \<open>Two backend states for concrete runs: still working, and done with one user entry.\<close>

definition busy :: apiState where
  "busy = \<lparr>history = Some [], isProcessing = True, queueLength = 0\<rparr>"

definition doneWithoutAnswer :: apiState where
  "doneWithoutAnswer =
     \<lparr>history = Some [\<lparr>message = Some \<lparr>role = ''user'', content = Some ''hi''\<rparr>\<rparr>],
      isProcessing = False, queueLength = 0\<rparr>"

definition answering :: apiState where
  "answering =
     \<lparr>history = Some [\<lparr>message = Some \<lparr>role = ''assistant'', content = Some ''42''\<rparr>\<rparr>],
      isProcessing = True, queueLength = 0\<rparr>"

text \<open>
  The event passes the classification of \<open>handleEvent\<close> (a message, not the bot's own,
  a direct message or one that mentions the bot) and \<open>mt\<close> is its extracted text.
\<close>

definition forwarded ::
  "(string \<Rightarrow> string \<Rightarrow> jsError + string) \<Rightarrow> SlackIntegrationConfig \<Rightarrow> SlackEvent \<Rightarrow> string
     \<Rightarrow> bool"
where
  "forwarded rx cfg event mt =
     (event_type event = ''message'' \<and> user event \<noteq> botUserId cfg \<and>
      (case event_text event of
         None \<Rightarrow> False
       | Some t \<Rightarrow>
           (isDirectMessage event \<or> isBotMentioned t (botUserId cfg))
           \<and> extractMessageText rx t (botUserId cfg) = Inr mt))"

definition isEphemeral :: "call \<Rightarrow> bool" where
  "isEphemeral c = (case c of ChatPostEphemeral ch usr t \<Rightarrow> True | _ \<Rightarrow> False)"

text \<open>A configuration, two events, replies and a state for concrete runs.\<close>

definition cfg0 :: SlackIntegrationConfig where
  "cfg0 = \<lparr>signingSecret = ''s'', botToken = ''xoxb-1'', botUserId = ''U1'',
           continueApiUrl = ''http://localhost:8000''\<rparr>"

definition mentionOnly :: SlackEvent where
  "mentionOnly =
     \<lparr>event_type = ''message'', event_ts = ''17.0'', user = ''U2'',
      event_text = Some ''<@U1> '', channel = ''C1'', channel_type = Some ''channel''\<rparr>"

definition ask :: SlackEvent where
  "ask =
     \<lparr>event_type = ''message'', event_ts = ''17.0'', user = ''U2'',
      event_text = Some ''<@U1> hello'', channel = ''C1'', channel_type = Some ''channel''\<rparr>"

definition posted :: "string \<Rightarrow> jsError + SlackMessageResponse" where
  "posted t = Inr \<lparr>ok = True, ts = Some t, error = None\<rparr>"

definition accepted :: "jsError + httpResponse" where
  "accepted = Inr \<lparr>resp_ok = True, status = 200\<rparr>"

definition allGood :: netEnv where
  "allGood =
     \<lparr>net_notice = posted ''17.1'', net_ack = posted ''17.1'',
      net_submit = accepted, net_update = posted ''17.1''\<rparr>"

definition idle :: integration where
  "idle = \<lparr>processingMessages = {}, calls = [], timers = []\<rparr>"

text \<open>
  In the concrete runs the bot id has no operator, so the parameter for other patterns
  is never asked; \<open>noRegExp\<close> refuses them all.
\<close>

definition noRegExp :: "string \<Rightarrow> string \<Rightarrow> jsError + string" where
  "noRegExp p t = Inl (Thrown ''SyntaxError'')"

text \<open>A state in which the key of \<open>ask\<close> is held by an invocation in progress.\<close>

definition askHeld :: integration where
  "askHeld =
     \<lparr>processingMessages = {''C1:17.0''},
      calls = [ChatPostMessage ''C1'' processingText], timers = []\<rparr>"

definition noText :: SlackEvent where
  "noText =
     \<lparr>event_type = ''message'', event_ts = ''18.0'', user = ''U2'',
      event_text = None, channel = ''C1'', channel_type = Some ''im''\<rparr>"

definition rejected :: netEnv where
  "rejected = allGood\<lparr>net_submit := Inr \<lparr>resp_ok = False, status = 500\<rparr>\<rparr>"

definition unreachable :: netEnv where
  "unreachable = allGood\<lparr>net_submit := Inl (Thrown ''fetch failed'')\<rparr>"

definition secondRun :: netEnv where
  "secondRun = allGood\<lparr>net_ack := posted ''17.2''\<rparr>"

text \<open>
  The dedup keys of the invocations that are between their first \<open>await\<close> and their
  exit, and the relation between them and \<open>processingMessages\<close> that every reachable
  state satisfies: the set holds exactly these keys, each of them once.
\<close>

definition inFlight :: "pending \<Rightarrow> string list" where
  "inFlight p = map (\<lambda>x. messageId (fst x)) p"

definition gateConsistent :: "integration \<times> pending \<Rightarrow> bool" where
  "gateConsistent sys =
     (processingMessages (fst sys) = set (inFlight (snd sys)) \<and> distinct (inFlight (snd sys)))"

text \<open>The number of replies an invocation in a given stage may still await.\<close>

fun remaining :: "stage \<Rightarrow> nat" where
  "remaining (AwaitSlack (Ack m)) = 3"
| "remaining (AwaitSubmit t) = 2"
| "remaining (AwaitSlack w) = 1"
| "remaining Returned = 0"
| "remaining (Threw e) = 0"

text \<open>
  An invocation that found the set \<open>S\<close> without its key \<open>k\<close> keeps \<open>k\<close> in the set
  while it waits and leaves \<open>S\<close> behind.
\<close>

definition holds :: "string \<Rightarrow> string set \<Rightarrow> stage \<times> integration \<Rightarrow> bool" where
  "holds k S r = (processingMessages (snd r) = (if waiting (fst r) then insert k S else S))"

section \<open>Signature verification\<close>

lemma utf8Bytes_not_empty: "utf8Bytes c \<noteq> []"
  by (simp add: utf8Bytes_def Let_def)

lemma utf8Bytes_inject: "utf8Bytes c @ xs = utf8Bytes d @ ys \<Longrightarrow> c = d \<and> xs = ys"
proof -
  assume a: "utf8Bytes c @ xs = utf8Bytes d @ ys"
  have "(of_char c :: nat) = of_char d \<and> xs = ys"
  proof (cases "(of_char c :: nat) < 128"; cases "(of_char d :: nat) < 128")
    assume "\<not> (of_char c :: nat) < 128" "\<not> (of_char d :: nat) < 128"
    with a have "(of_char c :: nat) div 64 = of_char d div 64"
      and "(of_char c :: nat) mod 64 = of_char d mod 64" and "xs = ys"
      by (simp_all add: utf8Bytes_def Let_def)
    then show ?thesis by (metis div_mult_mod_eq)
  qed (insert a, simp_all add: utf8Bytes_def Let_def)
  then show ?thesis by simp
qed

lemma bufferFrom_inject: "bufferFrom a = bufferFrom b \<Longrightarrow> a = b"
proof (induction a arbitrary: b)
  case Nil
  then show ?case
    by (cases b) (simp_all add: bufferFrom_def utf8Bytes_not_empty)
next
  case (Cons c cs)
  show ?case
  proof (cases b)
    case Nil
    with Cons.prems show ?thesis
      by (simp add: bufferFrom_def utf8Bytes_not_empty)
  next
    case (Cons d ds)
    with Cons.prems have "utf8Bytes c @ bufferFrom cs = utf8Bytes d @ bufferFrom ds"
      by (simp add: bufferFrom_def)
    from utf8Bytes_inject [OF this] Cons.IH [of ds] Cons show ?thesis by simp
  qed
qed

lemma timingSafeEqual_true:
  "timingSafeEqual (bufferFrom a) (bufferFrom b) = Inr True \<longleftrightarrow> a = b"
  by (auto simp: timingSafeEqual_def dest: bufferFrom_inject)

lemma parseInt_abc: "parseInt ''abc'' = None"
  by (simp add: parseInt_def isWhiteSpace_def isDigit_def)

lemma parseInt_900: "parseInt ''900'' = Some 900"
  by (simp add: parseInt_def isWhiteSpace_def isDigit_def)

lemma parseInt_100: "parseInt ''100'' = Some 100"
  by (simp add: parseInt_def isWhiteSpace_def isDigit_def)

text \<open>
  C2, as the specification states it, fails: a timestamp that is not a number passes the
  freshness check, and with the matching signature the request is accepted although the
  timestamp does not parse to a time at all.
\<close>

theorem verify_accepts_unparsed_timestamp:
  "verifySlackSignature toyDigest 1000 ''s''
     (expectedSignature toyDigest ''s'' ''abc'' ''{}'') ''abc'' ''{}'' = Inr True
   \<and> \<not> spec_verify toyDigest 1000 ''s''
     (expectedSignature toyDigest ''s'' ''abc'' ''{}'') ''abc'' ''{}''"
  by (simp add: verifySlackSignature_def spec_verify_def expectedSignature_def
      timingSafeEqual_true parseInt_abc)

text \<open>
  C2, amended: \<open>verify\<close> returns true if and only if the timestamp either does not
  parse to a number or parses to a time within 300 seconds of the current time, and the
  signature header is \<open>v0=\<close> followed by the hex digest of \<open>v0:timestamp:body\<close> under the
  secret. When the timestamp parses to a time more than 300 seconds from the current
  time, it returns false and does not throw, whatever the signature.
\<close>

theorem verify_true_iff:
  "(verifySlackSignature hmac time secret sig timestamp body = Inr True \<longleftrightarrow>
      (parseInt timestamp = None \<or> (\<exists>n. parseInt timestamp = Some n \<and> \<bar>time - n\<bar> \<le> 300))
      \<and> sig = expectedSignature hmac secret timestamp body)
   \<and> ((\<exists>n. parseInt timestamp = Some n \<and> \<bar>time - n\<bar> > 300) \<longrightarrow>
        verifySlackSignature hmac time secret sig timestamp body = Inr False)"
  by (auto simp: verifySlackSignature_def timingSafeEqual_true expectedSignature_def Let_def
      split: option.splits)

theorem verify_true_iff_witness:
  "verifySlackSignature toyDigest 1000 ''s''
     (expectedSignature toyDigest ''s'' ''900'' ''{}'') ''900'' ''{}'' = Inr True
   \<and> parseInt ''100'' = Some 100 \<and> \<bar>1000 - 100\<bar> > (300 :: int)
   \<and> verifySlackSignature toyDigest 1000 ''s''
     (expectedSignature toyDigest ''s'' ''100'' ''{}'') ''100'' ''{}'' = Inr False"
  using verify_true_iff [of toyDigest 1000 "''s''"
      "expectedSignature toyDigest ''s'' ''900'' ''{}''" "''900''" "''{}''"]
    verify_true_iff [of toyDigest 1000 "''s''"
      "expectedSignature toyDigest ''s'' ''100'' ''{}''" "''100''" "''{}''"]
  by (simp add: parseInt_900 parseInt_100)

text \<open>
  C9: when the timestamp header does not parse to a number, the freshness check does
  not reject: the result of \<open>verify\<close> is the result of comparing the supplied signature
  with the expected one, and it is the same at every current time.
\<close>

theorem verify_unparsed_timestamp_skips_freshness:
  "parseInt timestamp = None \<Longrightarrow>
     verifySlackSignature hmac time secret sig timestamp body
       = timingSafeEqual (bufferFrom (expectedSignature hmac secret timestamp body))
           (bufferFrom sig)
     \<and> verifySlackSignature hmac time' secret sig timestamp body
       = verifySlackSignature hmac time secret sig timestamp body"
  by (simp add: verifySlackSignature_def expectedSignature_def)

theorem verify_unparsed_timestamp_skips_freshness_witness:
  "parseInt ''abc'' = None
   \<and> verifySlackSignature toyDigest 0 ''s'' ''v0=00'' ''abc'' ''{}''
       = timingSafeEqual (bufferFrom (expectedSignature toyDigest ''s'' ''abc'' ''{}''))
           (bufferFrom ''v0=00'')
   \<and> verifySlackSignature toyDigest 1000000 ''s'' ''v0=00'' ''abc'' ''{}''
       = verifySlackSignature toyDigest 0 ''s'' ''v0=00'' ''abc'' ''{}''"
  using verify_unparsed_timestamp_skips_freshness [OF parseInt_abc, of toyDigest 0 "''s''" "''v0=00''" "''{}''" 1000000]
  by (simp add: parseInt_abc)

section \<open>The timer callback\<close>

lemma relay_fields:
  "ps_channel (fst (relayNewMessages state s)) = ps_channel s"
  "messageTs (fst (relayNewMessages state s)) = messageTs s"
  "polls (fst (relayNewMessages state s)) = polls s"
  "running (fst (relayNewMessages state s)) = running s"
  by (auto simp: relayNewMessages_def split: option.splits)

lemma notices_not_relay:
  "\<not> prefix completePrefix timedOutText"
  "\<not> prefix completePrefix processingCompleteText"
  "\<not> prefix completePrefix (errorResultsText e)"
  by (simp_all add: completePrefix_def timedOutText_def processingCompleteText_def
      errorResultsText_def)

lemma relay_lastMessageCount:
  "history state = Some h \<Longrightarrow> length h \<le> lastMessageCount (fst (relayNewMessages state s))"
  by (simp add: relayNewMessages_def)

lemma relay_none:
  "history state = Some h \<Longrightarrow> length h \<le> lastMessageCount s \<Longrightarrow>
     relayNewMessages state s = (s, [])"
  by (simp add: relayNewMessages_def)

lemma relay_length: "length (snd (relayNewMessages state s)) \<le> Suc 0"
  by (auto simp: relayNewMessages_def split: option.splits)

lemma relay_all_content:
  "filter isContentRelay (snd (relayNewMessages state s)) = snd (relayNewMessages state s)"
  by (auto simp: relayNewMessages_def isContentRelay_def updateMessage_req_def contentText_def
      split: option.splits)

lemma relay_content:
  assumes "c \<in> set (snd (relayNewMessages state s))"
  shows "\<exists>h m txt. history state = Some h \<and> lastMessageCount s < length h
          \<and> message (last h) = Some m \<and> role m = ''assistant'' \<and> content m = Some txt
          \<and> trim txt \<noteq> [] \<and> c = ChatUpdate (ps_channel s) (messageTs s) (contentText txt)
          \<and> lastMessageCount (fst (relayNewMessages state s)) = length h"
  using assms
  by (auto simp: relayNewMessages_def assistantContent_def updateMessage_req_def
      split: option.splits if_splits)

lemma relay_not_timeout:
  "c \<in> set (snd (relayNewMessages state s)) \<Longrightarrow> \<not> isTimeoutNotice c"
  by (auto simp: relayNewMessages_def isTimeoutNotice_def updateMessage_req_def contentText_def
      completePrefix_def timedOutText_def split: option.splits if_splits)

lemma tick_stopped: "\<not> running s \<Longrightarrow> pollTick fmt net s = (s, [])"
  by (simp add: pollTick_def)

lemma ticks_stopped: "\<not> running s \<Longrightarrow> pollTicks fmt nets s = (s, [])"
  by (induction nets) (simp_all add: tick_stopped)

lemma ticks_append:
  "pollTicks fmt (xs @ ys) s =
     (fst (pollTicks fmt ys (fst (pollTicks fmt xs s))),
      snd (pollTicks fmt xs s) @ snd (pollTicks fmt ys (fst (pollTicks fmt xs s))))"
  by (induction xs arbitrary: s) (simp_all add: Let_def)

lemma tick_timeout:
  "running s \<Longrightarrow> polls s = maxPolls \<Longrightarrow>
     pollTick fmt net s =
       (s\<lparr>polls := Suc maxPolls, running := False\<rparr>,
        [ClearInterval, ChatUpdate (ps_channel s) (messageTs s) timedOutText])"
  by (simp add: pollTick_def updateMessage_req_def)

lemma tick_processing:
  assumes "running s" "polls s < maxPolls" "reportsProcessing net"
  shows "running (fst (pollTick fmt net s))"
    and "polls (fst (pollTick fmt net s)) = Suc (polls s)"
    and "ps_channel (fst (pollTick fmt net s)) = ps_channel s"
    and "messageTs (fst (pollTick fmt net s)) = messageTs s"
    and "\<forall>c \<in> set (snd (pollTick fmt net s)). \<not> isTimeoutNotice c"
  using assms
  by (auto simp: pollTick_def reportsProcessing_def Let_def relay_fields isTimeoutNotice_def
      dest: relay_not_timeout split: sum.splits)

lemma ticks_processing:
  "running s \<Longrightarrow> polls s + length nets \<le> maxPolls \<Longrightarrow>
   \<forall>net \<in> set nets. reportsProcessing net \<Longrightarrow>
     running (fst (pollTicks fmt nets s))
     \<and> polls (fst (pollTicks fmt nets s)) = polls s + length nets
     \<and> ps_channel (fst (pollTicks fmt nets s)) = ps_channel s
     \<and> messageTs (fst (pollTicks fmt nets s)) = messageTs s
     \<and> (\<forall>c \<in> set (snd (pollTicks fmt nets s)). \<not> isTimeoutNotice c)"
proof (induction nets arbitrary: s)
  case Nil
  then show ?case by simp
next
  case (Cons net nets)
  have lt: "polls s < maxPolls" using Cons.prems(2) by simp
  have rp: "reportsProcessing net" using Cons.prems(3) by simp
  note t = tick_processing [OF Cons.prems(1) lt rp, of fmt]
  have "polls (fst (pollTick fmt net s)) + length nets \<le> maxPolls"
    using t(2) Cons.prems(2) by simp
  from Cons.IH [OF t(1) this] Cons.prems(3) t
  show ?case by (auto simp: Let_def)
qed

lemma ticks_busy:
  "running s \<Longrightarrow> polls s + n \<le> maxPolls \<Longrightarrow>
     pollTicks fmt (replicate n (okState busy)) s
       = (s\<lparr>polls := polls s + n\<rparr>, replicate n GetState)"
proof (induction n arbitrary: s)
  case 0
  then show ?case by simp
next
  case (Suc n)
  have 1: "pollTick fmt (okState busy) s = (s\<lparr>polls := Suc (polls s)\<rparr>, [GetState])"
    using Suc.prems
    by (simp add: pollTick_def okState_def busy_def queryState_def relayNewMessages_def)
  have "pollTicks fmt (replicate n (okState busy)) (s\<lparr>polls := Suc (polls s)\<rparr>)
      = (s\<lparr>polls := Suc (polls s) + n\<rparr>, replicate n GetState)"
    using Suc.IH [of "s\<lparr>polls := Suc (polls s)\<rparr>"] Suc.prems by simp
  with 1 show ?case by simp
qed

lemma ticks_busy_300:
  "pollTicks plainFormat (replicate 300 (okState busy)) (newSession ''C1'' ''U2'' ''17.1'')
     = (\<lparr>ps_channel = ''C1'', ps_user = ''U2'', messageTs = ''17.1'',
         polls = 300, lastMessageCount = 0, running = True\<rparr>,
        replicate 300 GetState)"
  using ticks_busy [of "newSession ''C1'' ''U2'' ''17.1''" 300 plainFormat]
  by (simp add: newSession_def maxPolls_def)

lemma busy_reportsProcessing: "reportsProcessing (okState busy)"
  by (simp add: reportsProcessing_def okState_def busy_def queryState_def)

lemma tick_lastMessageCount:
  assumes "observedLength net = Some n" "running (fst (pollTick fmt net s))"
  shows "n \<le> lastMessageCount (fst (pollTick fmt net s))"
proof -
  from assms(1) obtain state h where q: "queryState net = Inr state"
    and h: "history state = Some h" and n: "n = length h"
    by (auto simp: observedLength_def split: sum.splits)
  from assms(2) have "fst (pollTick fmt net s) = fst (relayNewMessages state (s\<lparr>polls := polls s + 1\<rparr>))"
    by (auto simp: pollTick_def Let_def q split: if_splits)
  then show ?thesis using relay_lastMessageCount [OF h] n by simp
qed

lemma tick_no_relay:
  assumes "observedLength net = Some n" "n \<le> lastMessageCount s"
  shows "filter isContentRelay (snd (pollTick fmt net s)) = []"
proof -
  from assms(1) obtain state h where q: "queryState net = Inr state"
    and h: "history state = Some h" and n: "n = length h"
    by (auto simp: observedLength_def split: sum.splits)
  have "relayNewMessages state (s\<lparr>polls := polls s + 1\<rparr>) = (s\<lparr>polls := polls s + 1\<rparr>, [])"
    using relay_none [OF h, of "s\<lparr>polls := polls s + 1\<rparr>"] assms(2) n by simp
  then show ?thesis
    by (simp add: pollTick_def Let_def q isContentRelay_def updateMessage_req_def notices_not_relay)
qed

lemma tick_relays:
  "filter isContentRelay (snd (pollTick fmt net s)) =
     (if running s \<and> polls s < maxPolls then
        (case queryState net of Inl e \<Rightarrow> [] | Inr state \<Rightarrow> snd (relayNewMessages state (s\<lparr>polls := polls s + 1\<rparr>)))
      else [])"
proof (cases "running s \<and> polls s < maxPolls")
  case False
  then show ?thesis
    by (auto simp: pollTick_def Let_def isContentRelay_def updateMessage_req_def notices_not_relay)
next
  case True
  show ?thesis
  proof (cases "queryState net")
    case (Inl e)
    with True show ?thesis
      by (simp add: pollTick_def Let_def isContentRelay_def updateMessage_req_def notices_not_relay)
  next
    case (Inr state)
    with True show ?thesis
      by (simp add: pollTick_def Let_def isContentRelay_def updateMessage_req_def notices_not_relay
          relay_all_content)
  qed
qed

lemma relay_in_tick:
  assumes c: "c \<in> set (snd (pollTick fmt net s))" and r: "isContentRelay c"
  shows "\<exists>state. running s \<and> polls s < maxPolls \<and> queryState net = Inr state
    \<and> c \<in> set (snd (relayNewMessages state (s\<lparr>polls := polls s + 1\<rparr>)))"
proof (cases "running s \<and> polls s < maxPolls")
  case False
  with c r show ?thesis
    by (auto simp: pollTick_def Let_def isContentRelay_def updateMessage_req_def notices_not_relay
        split: if_splits)
next
  case True
  show ?thesis
  proof (cases "queryState net")
    case (Inl e)
    with True c r show ?thesis
      by (auto simp: pollTick_def Let_def isContentRelay_def updateMessage_req_def notices_not_relay)
  next
    case (Inr state)
    with True c r show ?thesis
      by (auto simp: pollTick_def Let_def isContentRelay_def updateMessage_req_def notices_not_relay
          split: if_splits)
  qed
qed

text \<open>
  C1. The callback of a new session gets a state with \<open>isProcessing = false\<close>,
  \<open>queueLength = 0\<close> and a history whose only entry is the user's. Nothing has been
  relayed and nothing is: the callback sends the query, clears the timer and sends no
  update, so the session ends without a completion notice.
\<close>

theorem done_without_relay_posts_no_notice:
  "pollTick plainFormat (okState doneWithoutAnswer) (newSession ''C1'' ''U2'' ''17.1'')
     = (\<lparr>ps_channel = ''C1'', ps_user = ''U2'', messageTs = ''17.1'',
         polls = 1, lastMessageCount = 1, running = False\<rparr>,
        [GetState, ClearInterval])"
  by (simp add: pollTick_def okState_def doneWithoutAnswer_def newSession_def queryState_def
      relayNewMessages_def maxPolls_def assistantContent_def)

text \<open>
  C3, as the specification states it, fails: after 300 callbacks that all saw
  \<open>isProcessing = true\<close> the timer is still set and no update has been sent; it is the
  301st callback that sends the timeout notice.
\<close>

theorem no_timeout_after_300_ticks:
  "running (fst (pollTicks plainFormat (replicate 300 (okState busy))
      (newSession ''C1'' ''U2'' ''17.1'')))
   \<and> filter isUpdate (snd (pollTicks plainFormat (replicate 300 (okState busy))
      (newSession ''C1'' ''U2'' ''17.1''))) = []
   \<and> snd (pollTick plainFormat (okState busy)
        (fst (pollTicks plainFormat (replicate 300 (okState busy))
          (newSession ''C1'' ''U2'' ''17.1''))))
      = [ClearInterval, ChatUpdate ''C1'' ''17.1'' timedOutText]"
  by (simp add: ticks_busy_300 isUpdate_def pollTick_def maxPolls_def updateMessage_req_def)

text \<open>
  C3, amended: if the first 300 timer callbacks of a session each get a state with
  \<open>isProcessing = true\<close>, then after them the timer is still set and no timeout
  notice has been sent; the 301st callback sends no query, clears the timer and makes
  one update call, which carries the timeout notice; no later callback does anything,
  so the session makes exactly one update call with a timeout notice.
\<close>

theorem timeout_on_tick_301:
  assumes len: "length nets = 300"
    and proc: "\<forall>net \<in> set nets. reportsProcessing net"
  shows "running (fst (pollTicks fmt nets (newSession ch usr t)))
     \<and> filter isTimeoutNotice (snd (pollTicks fmt nets (newSession ch usr t))) = []
     \<and> snd (pollTick fmt net (fst (pollTicks fmt nets (newSession ch usr t))))
         = [ClearInterval, ChatUpdate ch t timedOutText]
     \<and> \<not> running (fst (pollTick fmt net (fst (pollTicks fmt nets (newSession ch usr t)))))
     \<and> snd (pollTicks fmt later
          (fst (pollTick fmt net (fst (pollTicks fmt nets (newSession ch usr t)))))) = []
     \<and> length (filter isTimeoutNotice
          (snd (pollTicks fmt (nets @ net # later) (newSession ch usr t)))) = 1"
proof -
  let ?init = "newSession ch usr t"
  let ?reached = "fst (pollTicks fmt nets ?init)"
  have s0: "running ?init" "polls ?init = 0" "ps_channel ?init = ch" "messageTs ?init = t"
    by (simp_all add: newSession_def)
  have p0: "polls ?init + length nets \<le> maxPolls"
    using len s0(2) by (simp add: maxPolls_def)
  note tp = ticks_processing [OF s0(1) p0 proc, of fmt]
  have run: "running ?reached" using tp by simp
  have pol: "polls ?reached = maxPolls" using tp len s0(2) by (simp add: maxPolls_def)
  have ch: "ps_channel ?reached = ch" using tp s0(3) by simp
  have ts: "messageTs ?reached = t" using tp s0(4) by simp
  have nt: "\<forall>c \<in> set (snd (pollTicks fmt nets ?init)). \<not> isTimeoutNotice c"
    using tp by simp
  have f: "filter isTimeoutNotice (snd (pollTicks fmt nets ?init)) = []"
    using nt by (simp add: filter_empty_conv)
  have tick: "pollTick fmt net ?reached =
      (?reached\<lparr>polls := Suc maxPolls, running := False\<rparr>, [ClearInterval, ChatUpdate ch t timedOutText])"
    using tick_timeout [OF run pol, of fmt net] ch ts by simp
  have after: "pollTicks fmt later (?reached\<lparr>polls := Suc maxPolls, running := False\<rparr>)
      = (?reached\<lparr>polls := Suc maxPolls, running := False\<rparr>, [])"
    by (rule ticks_stopped) simp
  have "snd (pollTicks fmt (nets @ net # later) ?init)
      = snd (pollTicks fmt nets ?init) @ [ClearInterval, ChatUpdate ch t timedOutText]"
    by (simp add: ticks_append tick after Let_def)
  then have one: "length (filter isTimeoutNotice (snd (pollTicks fmt (nets @ net # later) ?init))) = 1"
    by (simp add: f isTimeoutNotice_def)
  show ?thesis using run f tick after one by simp
qed

theorem timeout_on_tick_301_witness:
  "length (replicate 300 (okState busy)) = 300
   \<and> reportsProcessing (okState busy)
   \<and> snd (pollTick plainFormat (okState busy)
        (fst (pollTicks plainFormat (replicate 300 (okState busy))
          (newSession ''C1'' ''U2'' ''17.1''))))
       = [ClearInterval, ChatUpdate ''C1'' ''17.1'' timedOutText]
   \<and> length (filter isTimeoutNotice
          (snd (pollTicks plainFormat (replicate 300 (okState busy) @ okState busy # [okState busy])
             (newSession ''C1'' ''U2'' ''17.1'')))) = 1"
  using timeout_on_tick_301 [of "replicate 300 (okState busy)" plainFormat "''C1''" "''U2''" "''17.1''"
      "okState busy" "[okState busy]"]
  by (simp add: busy_reportsProcessing)

text \<open>
  C7: if two consecutive callbacks observe the same history length, the second makes no
  content update. A callback makes at most one content update, and only when the
  history is longer than \<open>lastMessageCount\<close>, which then takes the new length, and
  the newest entry is an assistant's with content that is not empty after trimming.
\<close>

theorem relay_once_per_growth:
  "(observedLength net1 = Some n \<and> observedLength net2 = Some n \<longrightarrow>
      filter isContentRelay (snd (pollTick fmt net2 (fst (pollTick fmt net1 s)))) = [])
   \<and> length (filter isContentRelay (snd (pollTick fmt net s))) \<le> 1
   \<and> (\<forall>c \<in> set (snd (pollTick fmt net s)). isContentRelay c \<longrightarrow>
        (\<exists>state h m txt. queryState net = Inr state \<and> history state = Some h
           \<and> lastMessageCount s < length h
           \<and> lastMessageCount (fst (pollTick fmt net s)) = length h
           \<and> message (last h) = Some m \<and> role m = ''assistant'' \<and> content m = Some txt
           \<and> txt \<noteq> [] \<and> trim txt \<noteq> []
           \<and> c = ChatUpdate (ps_channel s) (messageTs s) (contentText txt)))"
proof (intro conjI impI ballI)
  assume a: "observedLength net1 = Some n \<and> observedLength net2 = Some n"
  show "filter isContentRelay (snd (pollTick fmt net2 (fst (pollTick fmt net1 s)))) = []"
  proof (cases "running (fst (pollTick fmt net1 s))")
    case True
    from tick_lastMessageCount [OF _ True] a
    have "n \<le> lastMessageCount (fst (pollTick fmt net1 s))" by simp
    with a show ?thesis by (simp add: tick_no_relay)
  next
    case False
    then show ?thesis by (simp add: tick_stopped)
  qed
next
  show "length (filter isContentRelay (snd (pollTick fmt net s))) \<le> 1"
    by (simp add: tick_relays relay_length split: sum.splits)
next
  fix c
  assume c: "c \<in> set (snd (pollTick fmt net s))" and r: "isContentRelay c"
  from relay_in_tick [OF c r]
  obtain state where run: "running s" "polls s < maxPolls" and q: "queryState net = Inr state"
    and cr: "c \<in> set (snd (relayNewMessages state (s\<lparr>polls := polls s + 1\<rparr>)))"
    by blast
  have l: "lastMessageCount (fst (pollTick fmt net s)) =
      lastMessageCount (fst (relayNewMessages state (s\<lparr>polls := polls s + 1\<rparr>)))"
    using run q by (simp add: pollTick_def Let_def)
  from relay_content [OF cr] l q
  show "\<exists>state h m txt. queryState net = Inr state \<and> history state = Some h
           \<and> lastMessageCount s < length h
           \<and> lastMessageCount (fst (pollTick fmt net s)) = length h
           \<and> message (last h) = Some m \<and> role m = ''assistant'' \<and> content m = Some txt
           \<and> txt \<noteq> [] \<and> trim txt \<noteq> []
           \<and> c = ChatUpdate (ps_channel s) (messageTs s) (contentText txt)"
    by (auto simp: trim_def)
qed

theorem relay_once_per_growth_witness:
  "observedLength (okState answering) = Some 1
   \<and> snd (pollTick plainFormat (okState answering) (newSession ''C1'' ''U2'' ''17.1''))
       = [GetState, ChatUpdate ''C1'' ''17.1'' (contentText ''42'')]
   \<and> isContentRelay (ChatUpdate ''C1'' ''17.1'' (contentText ''42''))
   \<and> filter isContentRelay (snd (pollTick plainFormat (okState answering)
         (fst (pollTick plainFormat (okState answering) (newSession ''C1'' ''U2'' ''17.1''))))) = []"
proof -
  have o: "observedLength (okState answering) = Some 1"
    by (simp add: observedLength_def okState_def answering_def queryState_def)
  have t: "snd (pollTick plainFormat (okState answering) (newSession ''C1'' ''U2'' ''17.1''))
       = [GetState, ChatUpdate ''C1'' ''17.1'' (contentText ''42'')]"
    by (simp add: pollTick_def okState_def answering_def queryState_def newSession_def
        maxPolls_def relayNewMessages_def assistantContent_def updateMessage_req_def
        trim_def isWhiteSpace_def)
  have r: "isContentRelay (ChatUpdate ''C1'' ''17.1'' (contentText ''42''))"
    by (simp add: isContentRelay_def contentText_def)
  from relay_once_per_growth [of "okState answering" 1 "okState answering" plainFormat
      "newSession ''C1'' ''U2'' ''17.1''"] o t r
  show ?thesis by simp
qed

section \<open>handleEvent\<close>

lemma finallyDelete_simp [simp]:
  "finallyDelete k (sg, st) = (sg, st\<lparr>processingMessages := processingMessages st - {k}\<rparr>)"
  by (simp add: finallyDelete_def)

lemma emit_processing [simp]: "processingMessages (emit c st) = processingMessages st"
  by (simp add: emit_def)

lemma start_held:
  "messageId event \<in> processingMessages st \<Longrightarrow> handleEvent_start rx cfg event st = (Returned, st)"
  by (simp add: handleEvent_start_def)

lemma start_processing:
  "processingMessages (snd (handleEvent_start rx cfg event st)) =
     (if waiting (fst (handleEvent_start rx cfg event st))
      then insert (messageId event) (processingMessages st)
      else processingMessages st)"
  by (auto simp: handleEvent_start_def Let_def split: option.splits sum.splits)

lemma start_waiting_free:
  "waiting (fst (handleEvent_start rx cfg event st)) \<Longrightarrow> messageId event \<notin> processingMessages st"
  by (auto simp: handleEvent_start_def Let_def split: option.splits if_splits sum.splits)

lemma resumeSlack_processing:
  "processingMessages (snd (resumeSlack fmt event w net st)) =
     (if waiting (fst (resumeSlack fmt event w net st))
      then processingMessages st
      else processingMessages st - {messageId event})"
  by (auto simp: resumeSlack_def Let_def pollAndSendResults_def split: slackAwait.splits option.splits)

lemma resumeSubmit_processing:
  "processingMessages (snd (resumeSubmit fmt event t net st)) = processingMessages st"
  "waiting (fst (resumeSubmit fmt event t net st))"
  by (auto simp: resumeSubmit_def split: option.splits)

lemma remove_nth_distinct:
  assumes "distinct xs" "i < length xs"
  shows "set (take i xs @ drop (Suc i) xs) = set xs - {xs ! i}"
    and "distinct (take i xs @ drop (Suc i) xs)"
proof -
  have xs: "xs = take i xs @ xs ! i # drop (Suc i) xs"
    using assms(2) by (simp add: id_take_nth_drop)
  have d: "distinct (take i xs @ xs ! i # drop (Suc i) xs)"
    using assms(1) xs by simp
  then show "distinct (take i xs @ drop (Suc i) xs)" by simp
  have "set xs = set (take i xs @ xs ! i # drop (Suc i) xs)" using xs by simp
  with d show "set (take i xs @ drop (Suc i) xs) = set xs - {xs ! i}" by auto
qed

lemma inFlight_update:
  "i < length p \<Longrightarrow> fst (p ! i) = event \<Longrightarrow> inFlight (p[i := (event, sg)]) = inFlight p"
  by (simp add: inFlight_def map_update list_update_same_conv)

lemma inFlight_remove:
  "inFlight (take i p @ drop (Suc i) p) = take i (inFlight p) @ drop (Suc i) (inFlight p)"
  by (simp add: inFlight_def take_map drop_map)

lemma inFlight_nth: "i < length p \<Longrightarrow> inFlight p ! i = messageId (fst (p ! i))"
  by (simp add: inFlight_def)

lemma settle_consistent:
  assumes g: "gateConsistent (st, p)" and i: "i < length p" and e: "fst (p ! i) = event"
    and r: "processingMessages (snd r) =
       (if waiting (fst r) then processingMessages st else processingMessages st - {messageId event})"
  shows "gateConsistent (settle i event r p)"
proof (cases "waiting (fst r)")
  case True
  with g r show ?thesis
    by (simp add: gateConsistent_def settle_def inFlight_update [OF i e])
next
  case False
  have il: "i < length (inFlight p)" using i by (simp add: inFlight_def)
  from g have d: "distinct (inFlight p)" by (simp add: gateConsistent_def)
  from remove_nth_distinct [OF d il] g r False e i
  show ?thesis
    by (simp add: gateConsistent_def settle_def inFlight_remove inFlight_nth)
qed

lemma act_consistent:
  assumes "gateConsistent sys"
  shows "gateConsistent (act rx fmt cfg a sys)"
proof (cases sys)
  case (Pair st p)
  with assms have g: "gateConsistent (st, p)" by simp
  show ?thesis
  proof (cases a)
    case (Deliver event)
    show ?thesis
    proof (cases "waiting (fst (handleEvent_start rx cfg event st))")
      case True
      from start_waiting_free [OF True] g True
      show ?thesis
        by (simp add: Pair Deliver Let_def gateConsistent_def start_processing inFlight_def)
    next
      case False
      with g show ?thesis
        by (simp add: Pair Deliver Let_def gateConsistent_def start_processing)
    qed
  next
    case (SlackReplies i net)
    show ?thesis
    proof (cases "i < length p")
      case True
      obtain event sg where pi: "p ! i = (event, sg)" by (cases "p ! i")
      show ?thesis
      proof (cases sg)
        case (AwaitSlack w)
        from settle_consistent [OF g True, of event "resumeSlack fmt event w net st"] pi
        have "gateConsistent (settle i event (resumeSlack fmt event w net st) p)"
          by (simp add: resumeSlack_processing)
        then show ?thesis by (simp add: Pair SlackReplies True pi AwaitSlack)
      qed (insert g, simp_all add: Pair SlackReplies True pi)
    next
      case False
      with g show ?thesis by (simp add: Pair SlackReplies)
    qed
  next
    case (SubmitReplies i net)
    show ?thesis
    proof (cases "i < length p")
      case True
      obtain event sg where pi: "p ! i = (event, sg)" by (cases "p ! i")
      show ?thesis
      proof (cases sg)
        case (AwaitSubmit t)
        from settle_consistent [OF g True, of event "resumeSubmit fmt event t net st"] pi
        have "gateConsistent (settle i event (resumeSubmit fmt event t net st) p)"
          by (simp add: resumeSubmit_processing)
        then show ?thesis by (simp add: Pair SubmitReplies True pi AwaitSubmit)
      qed (insert g, simp_all add: Pair SubmitReplies True pi)
    next
      case False
      with g show ?thesis by (simp add: Pair SubmitReplies)
    qed
  next
    case (TimerFires i net)
    with g show ?thesis by (simp add: Pair Let_def gateConsistent_def)
  qed
qed

lemma run_consistent:
  "gateConsistent sys \<Longrightarrow> gateConsistent (run rx fmt cfg acts sys)"
  unfolding run_def
  by (induction acts arbitrary: sys) (simp_all add: act_consistent)

lemma initial_consistent: "gateConsistent initial"
  by (simp add: gateConsistent_def initial_def inFlight_def)


lemma start_forwarded:
  assumes "forwarded rx cfg event mt" "messageId event \<notin> processingMessages st"
  shows "handleEvent_start rx cfg event st =
     (if mt = [] then
        (AwaitSlack EmptyNotice,
         st\<lparr>processingMessages := insert (messageId event) (processingMessages st),
            calls := calls st @ [ChatPostMessage (channel event) pleaseProvideText]\<rparr>)
      else
        (AwaitSlack (Ack mt),
         st\<lparr>processingMessages := insert (messageId event) (processingMessages st),
            calls := calls st @ [ChatPostMessage (channel event) processingText]\<rparr>))"
  using assms
  by (auto simp: forwarded_def handleEvent_start_def Let_def emit_def postMessage_req_def
      split: option.splits)

lemma resume_simps:
  "resume fmt event env (Returned, st) = (Returned, st)"
  "resume fmt event env (Threw e, st) = (Threw e, st)"
  "resume fmt event env (AwaitSlack EmptyNotice, st)
     = resumeSlack fmt event EmptyNotice (net_notice env) st"
  "resume fmt event env (AwaitSlack (Ack m), st) = resumeSlack fmt event (Ack m) (net_ack env) st"
  "resume fmt event env (AwaitSlack (QueuedUpdate t), st)
     = resumeSlack fmt event (QueuedUpdate t) (net_update env) st"
  "resume fmt event env (AwaitSlack ErrorUpdate, st)
     = resumeSlack fmt event ErrorUpdate (net_update env) st"
  "resume fmt event env (AwaitSubmit t, st) = resumeSubmit fmt event t (net_submit env) st"
  by (simp_all add: resume_def)

lemma waiting_remaining: "waiting sg \<longleftrightarrow> 0 < remaining sg"
  by (cases sg rule: remaining.cases) simp_all

lemma start_remaining: "remaining (fst (handleEvent_start rx cfg event st)) \<le> 3"
  by (cases "fst (handleEvent_start rx cfg event st)" rule: remaining.cases) simp_all

lemma resumeSlack_remaining:
  "remaining (fst (resumeSlack fmt event w net st)) \<le> remaining (AwaitSlack w) - 1"
  by (cases w) (simp_all add: resumeSlack_def Let_def split: option.splits)

lemma resumeSubmit_remaining:
  "remaining (fst (resumeSubmit fmt event t net st)) \<le> 1"
  by (simp add: resumeSubmit_def split: option.splits)

lemma resume_remaining:
  "remaining (fst (resume fmt event env r)) \<le> remaining (fst r) - 1"
proof (cases r)
  case (Pair sg st)
  show ?thesis
  proof (cases sg)
    case (AwaitSlack w)
    then show ?thesis
      using resumeSlack_remaining [of fmt event w _ st]
      by (cases w) (simp_all add: Pair resume_simps)
  next
    case (AwaitSubmit t)
    then show ?thesis
      using resumeSubmit_remaining [of fmt event t "net_submit env" st]
      by (simp add: Pair resume_simps)
  qed (simp_all add: Pair resume_simps)
qed

lemma handleEvent_exits: "\<not> waiting (fst (handleEvent rx fmt cfg event env st))"
proof -
  let ?a = "handleEvent_start rx cfg event st"
  let ?b = "resume fmt event env ?a"
  let ?c = "resume fmt event env ?b"
  have "remaining (fst ?b) \<le> 2"
    using resume_remaining [of fmt event env ?a] start_remaining [of rx cfg event st] by simp
  then have "remaining (fst ?c) \<le> 1"
    using resume_remaining [of fmt event env ?b] by simp
  then have "remaining (fst (resume fmt event env ?c)) = 0"
    using resume_remaining [of fmt event env ?c] by simp
  then show ?thesis by (simp add: handleEvent_def waiting_remaining)
qed

lemma resume_processing:
  "processingMessages (snd (resume fmt event env r)) =
     (if waiting (fst r) \<and> \<not> waiting (fst (resume fmt event env r))
      then processingMessages (snd r) - {messageId event}
      else processingMessages (snd r))"
proof (cases r)
  case (Pair sg st)
  show ?thesis
  proof (cases sg)
    case (AwaitSlack w)
    then show ?thesis
      by (cases w) (simp_all add: Pair resume_simps resumeSlack_processing)
  next
    case (AwaitSubmit t)
    then show ?thesis
      by (simp add: Pair resume_simps resumeSubmit_processing)
  qed (simp_all add: Pair resume_simps)
qed

lemma resume_holds:
  assumes "messageId event \<notin> S" "holds (messageId event) S r"
  shows "holds (messageId event) S (resume fmt event env r)"
proof (cases "waiting (fst r)")
  case True
  with assms show ?thesis by (simp add: holds_def resume_processing)
next
  case False
  then have "resume fmt event env r = r"
    by (cases r, cases "fst r") (simp_all add: resume_simps)
  with assms show ?thesis by simp
qed

lemma handleEvent_releases:
  assumes "messageId event \<notin> processingMessages st"
  shows "processingMessages (snd (handleEvent rx fmt cfg event env st)) = processingMessages st"
proof -
  have "holds (messageId event) (processingMessages st) (handleEvent_start rx cfg event st)"
    by (simp add: holds_def start_processing)
  then have "holds (messageId event) (processingMessages st) (handleEvent rx fmt cfg event env st)"
    unfolding handleEvent_def by (intro resume_holds assms)
  then show ?thesis by (simp add: holds_def handleEvent_exits)
qed

lemma handleEvent_success:
  assumes fw: "forwarded rx cfg event mt" and ne: "mt \<noteq> []"
    and free: "messageId event \<notin> processingMessages st"
    and ack: "ok (apiReply fmt (net_ack env))" "ts (apiReply fmt (net_ack env)) = Some t" "t \<noteq> []"
    and sub: "submitThrows (net_submit env) = None"
  shows "handleEvent rx fmt cfg event env st =
     (Returned,
      st\<lparr>calls := calls st @
         [ChatPostMessage (channel event) processingText,
          SubmitMessage mt,
          ChatUpdate (channel event) t queuedText,
          SetInterval],
         timers := timers st @ [newSession (channel event) (user event) t]\<rparr>)"
  using ne free ack sub
  by (simp add: handleEvent_def start_forwarded [OF fw free] resume_simps resumeSlack_def
      resumeSubmit_def emit_def updateMessage_req_def pollAndSendResults_def)




lemma mention_literal: "isLiteralPattern (mention ''U1'')"
  by (simp add: isLiteralPattern_def mention_def isRegexOperator_def)

lemma extract_hello: "extractMessageText rx ''<@U1> hello'' ''U1'' = Inr ''hello''"
  using mention_literal
  by (simp add: extractMessageText_def replaceAllMatches_def mention_def trim_def
      isWhiteSpace_def)

lemma extract_nothing: "extractMessageText rx ''<@U1> '' ''U1'' = Inr []"
  using mention_literal
  by (simp add: extractMessageText_def replaceAllMatches_def mention_def trim_def
      isWhiteSpace_def)

lemma mentioned_hello: "isBotMentioned ''<@U1> hello'' ''U1''"
  by (simp add: isBotMentioned_def mention_def)

lemma mentioned_only: "isBotMentioned ''<@U1> '' ''U1''"
  by (simp add: isBotMentioned_def mention_def)

lemma forwarded_ask: "forwarded noRegExp cfg0 ask ''hello''"
  by (simp add: forwarded_def cfg0_def ask_def extract_hello mentioned_hello)

lemma forwarded_mentionOnly: "forwarded noRegExp cfg0 mentionOnly []"
  by (simp add: forwarded_def cfg0_def mentionOnly_def extract_nothing mentioned_only)

lemma example_fields:
  "channel ask = ''C1''" "user ask = ''U2''" "channel mentionOnly = ''C1''"
  "length (timers idle) = 0" "calls idle = []" "timers idle = []"
  by (simp_all add: ask_def mentionOnly_def idle_def)

lemma example_texts: "''hello'' \<noteq> []" "''17.1'' \<noteq> []" "''17.2'' \<noteq> []"
  by simp_all

lemma idle_free: "messageId event \<notin> processingMessages idle"
  by (simp add: idle_def)

lemma allGood_ack:
  "ok (apiReply fmt (net_ack allGood))"
  "ts (apiReply fmt (net_ack allGood)) = Some ''17.1''"
  "ok (apiReply fmt (net_ack rejected))"
  "ts (apiReply fmt (net_ack rejected)) = Some ''17.1''"
  "ok (apiReply fmt (net_ack unreachable))"
  "ts (apiReply fmt (net_ack unreachable)) = Some ''17.1''"
  "ok (apiReply fmt (net_ack secondRun))"
  "ts (apiReply fmt (net_ack secondRun)) = Some ''17.2''"
  by (simp_all add: allGood_def rejected_def unreachable_def secondRun_def posted_def apiReply_def)

lemma submit_outcomes:
  "submitThrows (net_submit allGood) = None"
  "submitThrows (net_submit secondRun) = None"
  "submitThrows (net_submit rejected) = Some (ApiReturned 500)"
  "submitThrows (net_submit unreachable) = Some (Thrown ''fetch failed'')"
  by (simp_all add: allGood_def rejected_def unreachable_def secondRun_def accepted_def submitThrows_def)

lemma deliver_ask:
  "run noRegExp plainFormat cfg0 [Deliver ask] initial =
     (\<lparr>processingMessages = {messageId ask},
       calls = [ChatPostMessage ''C1'' processingText], timers = []\<rparr>,
      [(ask, AwaitSlack (Ack ''hello''))])"
  using start_forwarded [OF forwarded_ask, of "fst initial"]
  by (simp add: run_def initial_def example_fields)

text \<open>
  C4, as the specification states it, fails: for a message that is only a mention the
  integration calls \<open>postMessage\<close>, which posts to the channel; it makes no
  \<open>postEphemeral\<close> call.
\<close>

theorem empty_text_notice_not_ephemeral:
  "calls (snd (handleEvent noRegExp plainFormat cfg0 mentionOnly allGood idle))
     = [ChatPostMessage ''C1'' pleaseProvideText]
   \<and> filter isEphemeral (calls (snd (handleEvent noRegExp plainFormat cfg0 mentionOnly allGood idle))) = []"
  by (simp add: handleEvent_def start_forwarded [OF forwarded_mentionOnly idle_free]
      resume_simps resumeSlack_def isEphemeral_def example_fields)

text \<open>
  C4, amended: for every delivery that passes the dedup gate and the classification
  and whose extracted text is empty, \<open>handleEvent\<close> posts the notice "Please provide a
  message for me to process." to the channel with \<open>postMessage\<close> and returns. This is
  its only request: no processing message, no submission to the backend, no timer; the
  dedup key is released.
\<close>

theorem empty_text_posts_plain_notice:
  assumes "forwarded rx cfg event []" "messageId event \<notin> processingMessages st"
  shows "handleEvent rx fmt cfg event env st =
     (Returned, st\<lparr>calls := calls st @ [ChatPostMessage (channel event) pleaseProvideText]\<rparr>)"
  using assms(2)
  by (simp add: handleEvent_def start_forwarded [OF assms] resume_def resumeSlack_def)

theorem empty_text_posts_plain_notice_witness:
  "forwarded noRegExp cfg0 mentionOnly [] \<and> messageId mentionOnly \<notin> processingMessages idle
   \<and> handleEvent noRegExp plainFormat cfg0 mentionOnly allGood idle
       = (Returned, idle\<lparr>calls := [ChatPostMessage ''C1'' pleaseProvideText]\<rparr>)"
  using empty_text_posts_plain_notice [OF forwarded_mentionOnly idle_free, of plainFormat allGood]
  by (simp add: forwarded_mentionOnly idle_free example_fields)

lemma handleEvent_failure:
  assumes fw: "forwarded rx cfg event mt" and ne: "mt \<noteq> []"
    and free: "messageId event \<notin> processingMessages st"
    and ack: "ok (apiReply fmt (net_ack env))" "ts (apiReply fmt (net_ack env)) = Some t" "t \<noteq> []"
    and fails: "submitThrows (net_submit env) = Some e"
  shows "handleEvent rx fmt cfg event env st =
     (Returned,
      st\<lparr>calls := calls st @
         [ChatPostMessage (channel event) processingText,
          SubmitMessage mt,
          ChatUpdate (channel event) t (errorProcessingText (fmt e))]\<rparr>)"
  using ne free ack fails
  by (simp add: handleEvent_def start_forwarded [OF fw free] resume_simps resumeSlack_def
      resumeSubmit_def emit_def updateMessage_req_def)

text \<open>
  C8: the acknowledgment has been posted (the Slack API answered it with \<open>ok\<close> and a
  timestamp \<open>t\<close>). If the submission to the backend fails in transport (\<open>fetch\<close>
  throws \<open>e\<close>), \<open>handleEvent\<close> updates the message \<open>t\<close> with the text
  ":x: Error processing your request: " followed by the formatted \<open>e\<close>, and returns;
  if the backend answers with a status that is not a success, the same with the formatted
  error "Continue API returned status". In both cases the requests are the
  acknowledgment, the submission and this update, and nothing else changes:
  \<open>pollAndSendResults\<close> is not called, no timer is set.
\<close>

theorem failed_submission_reports_error:
  assumes fw: "forwarded rx cfg event mt" and ne: "mt \<noteq> []"
    and free: "messageId event \<notin> processingMessages st"
    and ack: "net_ack env = Inr data" "ok data" "ts data = Some t" "t \<noteq> []"
  shows "(net_submit env = Inl e \<longrightarrow>
            handleEvent rx fmt cfg event env st =
              (Returned,
               st\<lparr>calls := calls st @
                 [ChatPostMessage (channel event) '':robot_face: Processing your request...'',
                  SubmitMessage mt,
                  ChatUpdate (channel event) t
                    ('':x: Error processing your request: '' @ fmt e)]\<rparr>))
     \<and> (net_submit env = Inr response \<and> \<not> resp_ok response \<longrightarrow>
            handleEvent rx fmt cfg event env st =
              (Returned,
               st\<lparr>calls := calls st @
                 [ChatPostMessage (channel event) '':robot_face: Processing your request...'',
                  SubmitMessage mt,
                  ChatUpdate (channel event) t
                    ('':x: Error processing your request: ''
                       @ fmt (ApiReturned (status response)))]\<rparr>))"
proof (intro conjI impI)
  have a: "ok (apiReply fmt (net_ack env))" "ts (apiReply fmt (net_ack env)) = Some t"
    using ack by (simp_all add: apiReply_def)
  {
    assume "net_submit env = Inl e"
    then have "submitThrows (net_submit env) = Some e"
      by (simp add: submitThrows_def)
    from handleEvent_failure [OF fw ne free a ack(4) this]
    show "handleEvent rx fmt cfg event env st =
              (Returned,
               st\<lparr>calls := calls st @
                 [ChatPostMessage (channel event) '':robot_face: Processing your request...'',
                  SubmitMessage mt,
                  ChatUpdate (channel event) t
                    ('':x: Error processing your request: '' @ fmt e)]\<rparr>)"
      by (simp add: processingText_def errorProcessingText_def)
  next
    assume "net_submit env = Inr response \<and> \<not> resp_ok response"
    then have "submitThrows (net_submit env) = Some (ApiReturned (status response))"
      by (simp add: submitThrows_def)
    from handleEvent_failure [OF fw ne free a ack(4) this]
    show "handleEvent rx fmt cfg event env st =
              (Returned,
               st\<lparr>calls := calls st @
                 [ChatPostMessage (channel event) '':robot_face: Processing your request...'',
                  SubmitMessage mt,
                  ChatUpdate (channel event) t
                    ('':x: Error processing your request: ''
                       @ fmt (ApiReturned (status response)))]\<rparr>)"
      by (simp add: processingText_def errorProcessingText_def)
  }
qed

theorem failed_submission_reports_error_witness:
  "net_submit rejected = Inr \<lparr>resp_ok = False, status = 500\<rparr>
   \<and> handleEvent noRegExp plainFormat cfg0 ask rejected idle
       = (Returned,
          idle\<lparr>calls :=
            [ChatPostMessage ''C1'' '':robot_face: Processing your request...'',
             SubmitMessage ''hello'',
             ChatUpdate ''C1'' ''17.1''
               '':x: Error processing your request: Continue API returned an error status'']\<rparr>)
   \<and> net_submit unreachable = Inl (Thrown ''fetch failed'')
   \<and> handleEvent noRegExp plainFormat cfg0 ask unreachable idle
       = (Returned,
          idle\<lparr>calls :=
            [ChatPostMessage ''C1'' '':robot_face: Processing your request...'',
             SubmitMessage ''hello'',
             ChatUpdate ''C1'' ''17.1'' '':x: Error processing your request: fetch failed'']\<rparr>)"
proof -
  have r: "net_submit rejected = Inr \<lparr>resp_ok = False, status = 500\<rparr>"
    and u: "net_submit unreachable = Inl (Thrown ''fetch failed'')"
    and ar: "net_ack rejected = Inr \<lparr>ok = True, ts = Some ''17.1'', error = None\<rparr>"
    and au: "net_ack unreachable = Inr \<lparr>ok = True, ts = Some ''17.1'', error = None\<rparr>"
    by (simp_all add: rejected_def unreachable_def allGood_def posted_def)
  have d: "ok \<lparr>ok = True, ts = Some ''17.1'', error = None\<rparr>"
    "ts \<lparr>ok = True, ts = Some ''17.1'', error = None\<rparr> = Some ''17.1''"
    by simp_all
  from failed_submission_reports_error [OF forwarded_ask example_texts(1) idle_free ar d
      example_texts(2), of "Thrown ''x''" plainFormat "\<lparr>resp_ok = False, status = 500\<rparr>"]
    failed_submission_reports_error [OF forwarded_ask example_texts(1) idle_free au d
      example_texts(2), of "Thrown ''fetch failed''" plainFormat "\<lparr>resp_ok = False, status = 500\<rparr>"]
    r u
  show ?thesis by (simp add: example_fields plainFormat_def)
qed

text \<open>
  C5, as the specification states it, fails on one exit path: the early return at the
  gate. While the invocation for \<open>ask\<close> awaits its acknowledgment, a second delivery
  of \<open>ask\<close> returns at once, and the key is still in \<open>processingMessages\<close> when it
  has: it is held by the first invocation.
\<close>

theorem held_key_remains_after_gate_return:
  "fst (run noRegExp plainFormat cfg0 [Deliver ask] initial) = askHeld
   \<and> handleEvent noRegExp plainFormat cfg0 ask allGood askHeld = (Returned, askHeld)
   \<and> messageId ask \<in> processingMessages
         (snd (handleEvent noRegExp plainFormat cfg0 ask allGood askHeld))"
proof -
  have k: "messageId ask = ''C1:17.0''"
    by (simp add: messageId_def ask_def)
  then have h: "messageId ask \<in> processingMessages askHeld"
    by (simp add: askHeld_def)
  have "handleEvent noRegExp plainFormat cfg0 ask allGood askHeld = (Returned, askHeld)"
    by (simp add: handleEvent_def start_held [OF h] resume_simps)
  with h k show ?thesis by (simp add: deliver_ask askHeld_def)
qed

text \<open>
  C5, amended: an invocation of \<open>handleEvent\<close> that finds its dedup key free (absent
  from \<open>processingMessages\<close>) always exits, by a return or by a thrown error, whatever
  the network does, and the key is absent from \<open>processingMessages\<close> when it has. In
  every state that deliveries, replies and timer callbacks can reach in any order,
  \<open>processingMessages\<close> holds exactly the keys of the invocations that are between
  their first \<open>await\<close> and their exit: a key is present only while its delivery is
  being processed.
\<close>

theorem dedup_key_released_on_exit:
  "(messageId event \<notin> processingMessages st \<longrightarrow>
      \<not> waiting (fst (handleEvent rx fmt cfg event env st))
      \<and> messageId event \<notin> processingMessages (snd (handleEvent rx fmt cfg event env st)))
   \<and> processingMessages (fst (run rx fmt cfg acts initial))
       = set (inFlight (snd (run rx fmt cfg acts initial)))"
  using run_consistent [OF initial_consistent, of rx fmt cfg acts]
  by (simp add: handleEvent_exits handleEvent_releases gateConsistent_def)

theorem dedup_key_released_on_exit_witness:
  "messageId ask \<notin> processingMessages idle
   \<and> fst (handleEvent noRegExp plainFormat cfg0 ask allGood idle) = Returned
   \<and> messageId ask \<notin> processingMessages (snd (handleEvent noRegExp plainFormat cfg0 ask allGood idle))
   \<and> fst (handleEvent noRegExp plainFormat cfg0 noText allGood idle) = Threw TypeError
   \<and> messageId noText \<notin> processingMessages (snd (handleEvent noRegExp plainFormat cfg0 noText allGood idle))
   \<and> processingMessages (fst (run noRegExp plainFormat cfg0 [Deliver ask] initial)) = {messageId ask}
   \<and> inFlight (snd (run noRegExp plainFormat cfg0 [Deliver ask] initial)) = [messageId ask]"
proof -
  have r: "fst (handleEvent noRegExp plainFormat cfg0 ask allGood idle) = Returned"
    using handleEvent_success [OF forwarded_ask example_texts(1) idle_free allGood_ack(1,2)
        example_texts(2) submit_outcomes(1), of plainFormat]
    by simp
  have t: "fst (handleEvent noRegExp plainFormat cfg0 noText allGood idle) = Threw TypeError"
    by (simp add: handleEvent_def handleEvent_start_def noText_def cfg0_def idle_def messageId_def
        Let_def resume_simps)
  from dedup_key_released_on_exit [of ask idle noRegExp plainFormat cfg0 allGood "[Deliver ask]"]
    dedup_key_released_on_exit [of noText idle noRegExp plainFormat cfg0 allGood "[]"] r t
  show ?thesis by (simp add: idle_free deliver_ask inFlight_def)
qed

text \<open>
  C6: in every reachable state, a delivery whose key is that of an invocation still in
  progress changes nothing: it sends no request and does not become a second holder of
  the key. No key is held by two invocations.
\<close>

theorem duplicate_in_flight_dropped:
  "((event, sg) \<in> set (snd (run rx fmt cfg acts initial)) \<and> messageId dup = messageId event \<longrightarrow>
      act rx fmt cfg (Deliver dup) (run rx fmt cfg acts initial) = run rx fmt cfg acts initial)
   \<and> distinct (inFlight (snd (run rx fmt cfg acts initial)))"
proof (intro conjI impI)
  note g = run_consistent [OF initial_consistent, of rx fmt cfg acts]
  show "distinct (inFlight (snd (run rx fmt cfg acts initial)))"
    using g by (simp add: gateConsistent_def)
  assume a: "(event, sg) \<in> set (snd (run rx fmt cfg acts initial)) \<and> messageId dup = messageId event"
  obtain st p where r: "run rx fmt cfg acts initial = (st, p)"
    by (cases "run rx fmt cfg acts initial")
  from a r have "messageId dup \<in> set (inFlight p)"
    by (force simp: inFlight_def)
  with g r have "messageId dup \<in> processingMessages st"
    by (simp add: gateConsistent_def)
  then show "act rx fmt cfg (Deliver dup) (run rx fmt cfg acts initial) = run rx fmt cfg acts initial"
    by (simp add: r start_held)
qed

theorem duplicate_in_flight_dropped_witness:
  "(ask, AwaitSlack (Ack ''hello'')) \<in> set (snd (run noRegExp plainFormat cfg0 [Deliver ask] initial))
   \<and> act noRegExp plainFormat cfg0 (Deliver ask) (run noRegExp plainFormat cfg0 [Deliver ask] initial)
       = run noRegExp plainFormat cfg0 [Deliver ask] initial
   \<and> calls (fst (act noRegExp plainFormat cfg0 (Deliver ask) (run noRegExp plainFormat cfg0 [Deliver ask] initial)))
       = [ChatPostMessage ''C1'' processingText]"
proof -
  have m: "(ask, AwaitSlack (Ack ''hello'')) \<in> set (snd (run noRegExp plainFormat cfg0 [Deliver ask] initial))"
    by (simp add: deliver_ask)
  from duplicate_in_flight_dropped [of ask "AwaitSlack (Ack ''hello'')" noRegExp plainFormat cfg0
      "[Deliver ask]" ask] m
  have "act noRegExp plainFormat cfg0 (Deliver ask) (run noRegExp plainFormat cfg0 [Deliver ask] initial)
       = run noRegExp plainFormat cfg0 [Deliver ask] initial" by simp
  with m show ?thesis by (simp add: deliver_ask)
qed



end
